theory Spec2Isabelle
  imports Main "HOL-Library.Word" "HOL-Library.State_Monad"
begin

text \<open>
  A shallow embedding of \<open>main.go\<close> of the SSH monitor: it reads the lines of the
  \<open>ssh.service\<close> journal, extracts an address from each, groups addresses by their first
  three components, alerts on each event, counts the failed attempts of a group in a
  window of one minute and blocks a group that passes five.
\<close>

section \<open>Strings: the functions of Go's \<open>strings\<close> package that \<open>main.go\<close> calls\<close>

text \<open>
  A Go string is a sequence of bytes; \<open>string\<close> (a \<open>char list\<close>) models it byte by byte.

  \<open>Split s sep\<close> is \<open>strings.Split(s, sep)\<close> for a separator of one byte (the source only
  calls it with \<open>"."\<close>): the pieces of \<open>s\<close> between the separators, in order. The result is
  never empty; \<open>strings.Split("", ".")\<close> is the one-element slice holding the empty string.
\<close>

fun Split :: "string \<Rightarrow> char \<Rightarrow> string list" where
  "Split [] sep = [[]]"
| "Split (c # cs) sep =
     (if c = sep then [] # Split cs sep
      else (case Split cs sep of
              [] \<Rightarrow> [[c]]
            | p # ps \<Rightarrow> (c # p) # ps))"

text \<open>\<open>Join elems sep\<close> is \<open>strings.Join(elems, sep)\<close>.\<close>

fun Join :: "string list \<Rightarrow> string \<Rightarrow> string" where
  "Join [] sep = []"
| "Join [x] sep = x"
| "Join (x # y # ys) sep = x @ sep @ Join (y # ys) sep"

text \<open>\<open>HasPrefix s p\<close> is \<open>strings.HasPrefix(s, p)\<close>.\<close>

fun HasPrefix :: "string \<Rightarrow> string \<Rightarrow> bool" where
  "HasPrefix s [] = True"
| "HasPrefix [] (p # ps) = False"
| "HasPrefix (c # cs) (p # ps) = (c = p \<and> HasPrefix cs ps)"

text \<open>\<open>Contains s substr\<close> is \<open>strings.Contains(s, substr)\<close>: a byte-wise, case-sensitive search.\<close>

fun Contains :: "string \<Rightarrow> string \<Rightarrow> bool" where
  "Contains [] substr = HasPrefix [] substr"
| "Contains (c # cs) substr = (HasPrefix (c # cs) substr \<or> Contains cs substr)"

text \<open>
  \<open>ToLower s\<close> is \<open>strings.ToLower(s)\<close> on the ASCII letters. Go also maps letters beyond
  ASCII; none of them is mapped to \<open>s\<close> or \<open>h\<close>, so the only test the source makes on the
  result (does it contain \<open>"ssh"\<close>) is the same for both.
\<close>

definition toLowerByte :: "char \<Rightarrow> char" where
  "toLowerByte c =
     (case map_of (zip ''ABCDEFGHIJKLMNOPQRSTUVWXYZ'' ''abcdefghijklmnopqrstuvwxyz'') c of
        None \<Rightarrow> c
      | Some l \<Rightarrow> l)"

definition ToLower :: "string \<Rightarrow> string" where
  "ToLower s = map toLowerByte s"

section \<open>The grouping function\<close>

text \<open>
  \<^verbatim>\<open>
  func getSubnet(ip string) string {
      parts := strings.Split(ip, ".")
      if len(parts) != 4 {
          return ip
      }
      return strings.Join(parts[:3], ".") + ".0/24"
  }
  \<close>
\<close>

definition getSubnet :: "string \<Rightarrow> string" where
  "getSubnet ip =
     (let parts = Split ip (CHR ''.'') in
      if length parts \<noteq> 4 then ip
      else Join (take 3 parts) ''.'' @ ''.0/24'')"

section \<open>Regular expressions: the part of Go's \<open>regexp\<close> package that \<open>main.go\<close> uses\<close>

text \<open>
  The patterns of \<open>extractIP\<close> and \<open>extractUsername\<close> are built from literal text,
  the classes \<open>\d\<close>, \<open>\s\<close>, \<open>\w\<close> and \<open>.\<close>, the greedy repetitions \<open>{m,n}\<close> and \<open>+\<close>
  of a class, the non-greedy \<open>*?\<close> of a class, concatenation and one capture group.
  \<open>regex\<close> is the syntax tree of such a pattern.
\<close>

datatype cclass = Digit | Space | WordChar | AnyChar

text \<open>
  Go's classes are ASCII: \<open>\d\<close> is \<open>[0-9]\<close>, \<open>\s\<close> is \<open>[\t\n\f\r ]\<close>, \<open>\w\<close> is
  \<open>[0-9A-Za-z_]\<close>, and \<open>.\<close> is any character but the newline.
\<close>

fun inClass :: "cclass \<Rightarrow> char \<Rightarrow> bool" where
  "inClass Digit c = (c \<in> set ''0123456789'')"
| "inClass Space c = (c \<in> {CHR 0x09, CHR 0x0A, CHR 0x0C, CHR 0x0D, CHR 0x20})"
| "inClass WordChar c =
     (c \<in> set ''0123456789ABCDEFGHIJKLMNOPQRSTUVWXYZ_abcdefghijklmnopqrstuvwxyz'')"
| "inClass AnyChar c = (c \<noteq> CHR 0x0A)"

datatype regex =
    Lit string
  | Rep cclass nat nat
  | Plus cclass
  | LazyStar cclass
  | Cat regex regex
  | Group regex

text \<open>
  \<open>rests p s\<close> lists what is left of \<open>s\<close> after taking 0, 1, 2, ... leading characters
  that satisfy \<open>p\<close>, the shortest take first.
\<close>

fun rests :: "(char \<Rightarrow> bool) \<Rightarrow> string \<Rightarrow> string list" where
  "rests p [] = [[]]"
| "rests p (c # cs) = (c # cs) # (if p c then rests p cs else [])"

text \<open>
  Go's \<open>regexp\<close> returns the match that begins leftmost and, among those, the one a
  backtracking search finds first. \<open>runs re s\<close> lists every way \<open>re\<close> matches a prefix
  of \<open>s\<close>, in the order a backtracking search tries them, each as the rest of the input
  after the match and the text of the capture group (if the group took part).
\<close>

fun runs :: "regex \<Rightarrow> string \<Rightarrow> (string \<times> string option) list" where
  "runs (Lit l) s = (if HasPrefix s l then [(drop (length l) s, None)] else [])"
| "runs (Rep k m n) s =
     map (\<lambda>r. (r, None)) (rev (drop m (take (Suc n) (rests (inClass k) s))))"
| "runs (Plus k) s = map (\<lambda>r. (r, None)) (rev (tl (rests (inClass k) s)))"
| "runs (LazyStar k) s = map (\<lambda>r. (r, None)) (rests (inClass k) s)"
| "runs (Cat a b) s =
     concat (map (\<lambda>(r, g). map (\<lambda>(r', g'). (r', (case g of None \<Rightarrow> g' | Some x \<Rightarrow> Some x)))
                                (runs b r))
                 (runs a s))"
| "runs (Group a) s = map (\<lambda>(r, g). (r, Some (take (length s - length r) s))) (runs a s)"

text \<open>
  \<open>FindStringSubmatch re s\<close> is \<open>re.FindStringSubmatch(s)\<close> for a pattern with one capture
  group: the leftmost match and the group's text, or the empty slice (Go's \<open>nil\<close>) when
  nothing matches.
\<close>

fun FindStringSubmatch :: "regex \<Rightarrow> string \<Rightarrow> string list" where
  "FindStringSubmatch re s =
     (case runs re s of
        (r, g) # _ \<Rightarrow> [take (length s - length r) s, (case g of None \<Rightarrow> [] | Some x \<Rightarrow> x)]
      | [] \<Rightarrow> (case s of [] \<Rightarrow> [] | _ # s' \<Rightarrow> FindStringSubmatch re s'))"

section \<open>The address classifier\<close>

text \<open>\<open>\d{1,3}\.\d{1,3}\.\d{1,3}\.\d{1,3}\<close>, the address shape all four patterns capture.\<close>

definition ipv4 :: regex where
  "ipv4 = Cat (Rep Digit 1 3) (Cat (Lit ''.'') (Cat (Rep Digit 1 3) (Cat (Lit ''.'')
         (Cat (Rep Digit 1 3) (Cat (Lit ''.'') (Rep Digit 1 3))))))"

text \<open>
  The patterns of \<open>extractIP\<close>, in the source's order:
  \<^verbatim>\<open>from\s+(\d{1,3}\.\d{1,3}\.\d{1,3}\.\d{1,3})\<close>,
  \<^verbatim>\<open>(\d{1,3}\.\d{1,3}\.\d{1,3}\.\d{1,3})\s+port\<close>,
  \<^verbatim>\<open>for\s+(\d{1,3}\.\d{1,3}\.\d{1,3}\.\d{1,3})\<close>,
  \<^verbatim>\<open>user.*?(\d{1,3}\.\d{1,3}\.\d{1,3}\.\d{1,3})\<close>.
\<close>

definition ipPatterns :: "regex list" where
  "ipPatterns =
     [Cat (Lit ''from'') (Cat (Plus Space) (Group ipv4)),
      Cat (Group ipv4) (Cat (Plus Space) (Lit ''port'')),
      Cat (Lit ''for'') (Cat (Plus Space) (Group ipv4)),
      Cat (Lit ''user'') (Cat (LazyStar AnyChar) (Group ipv4))]"

text \<open>
  The patterns of \<open>extractUsername\<close>: \<^verbatim>\<open>for\s+user\s+(\w+)\<close>, \<^verbatim>\<open>user\s+(\w+)\<close>,
  \<^verbatim>\<open>for\s+(\w+)\<close>.
\<close>

definition userPatterns :: "regex list" where
  "userPatterns =
     [Cat (Lit ''for'') (Cat (Plus Space) (Cat (Lit ''user'') (Cat (Plus Space)
        (Group (Plus WordChar))))),
      Cat (Lit ''user'') (Cat (Plus Space) (Group (Plus WordChar))),
      Cat (Lit ''for'') (Cat (Plus Space) (Group (Plus WordChar)))]"

text \<open>
  The loop both extractors share:
  \<^verbatim>\<open>
  for _, pattern := range patterns {
      re := regexp.MustCompile(pattern)
      if matches := re.FindStringSubmatch(line); len(matches) > 1 {
          return matches[1]
      }
  }
  return ""          // "unknown" in extractUsername
  \<close>
\<close>

fun firstSubmatch :: "regex list \<Rightarrow> string \<Rightarrow> string \<Rightarrow> string" where
  "firstSubmatch [] line dflt = dflt"
| "firstSubmatch (re # res) line dflt =
     (case FindStringSubmatch re line of
        _ # m # _ \<Rightarrow> m
      | _ \<Rightarrow> firstSubmatch res line dflt)"

definition extractIP :: "string \<Rightarrow> string" where
  "extractIP line = firstSubmatch ipPatterns line ''''"

definition extractUsername :: "string \<Rightarrow> string" where
  "extractUsername line = firstSubmatch userPatterns line ''unknown''"

section \<open>Time\<close>

text \<open>
  A \<open>time.Time\<close> is modelled as an instant in nanoseconds on an unbounded time line, a
  \<open>time.Duration\<close> as Go has it: a signed 64-bit count of nanoseconds, read as an \<open>int\<close>.
  \<open>Sub t u\<close> is \<open>t.Sub(u)\<close>: the difference, or the largest (smallest) duration when the
  difference does not fit.
\<close>

definition maxDuration :: int where
  "maxDuration = 2 ^ 63 - 1"

definition minDuration :: int where
  "minDuration = - (2 ^ 63)"

definition Sub :: "int \<Rightarrow> int \<Rightarrow> int" where
  "Sub t u =
     (if t - u > maxDuration then maxDuration
      else if t - u < minDuration then minDuration
      else t - u)"

text \<open>\<open>time.Minute\<close>, in nanoseconds.\<close>

definition Minute :: int where
  "Minute = 60 * 1000000000"

section \<open>What the program emits\<close>

text \<open>
  The texts the program formats, by the \<open>Sprintf\<close> that builds them and its arguments:
  \<^item> \<open>Successful ip location username\<close>: the successful-login line,
  \<^item> \<open>Activity ip location subnet\<close>: the SSH-activity line,
  \<^item> \<open>BlockMsg subnet count\<close>: the subnet-blocked line.
\<close>

datatype message =
    Successful string string string
  | Activity string string string
  | BlockMsg string "64 word"

text \<open>
  The effects of one step, in the order the code performs them: a \<open>fmt.Printf\<close> to
  standard output, the \<open>logEvent\<close> calls by their format (\<open>"Raw: %s"\<close>, \<open>"Event: %s"\<close>,
  \<open>"Block: %s"\<close>, \<open>"Blocked attempt from %s (subnet %s)"\<close>), and the \<open>http.Post\<close> of a
  message to the webhook.
\<close>

datatype effect =
    Stdout message
  | LogRaw string
  | LogEvent message
  | LogBlock message
  | LogBlockedAttempt string string
  | Post message

section \<open>The tracker\<close>

text \<open>
  \<^verbatim>\<open>
  type SubnetTracker struct {
      sync.Mutex
      attempts  map[string]int  // subnet -> attempts in last minute
      blacklist map[string]bool // subnet -> is blacklisted
      lastReset time.Time       // last time attempts were reset
  }
  \<close>
  The counters are Go \<open>int\<close>s, 64 bits wide on the platforms the service is built for:
  \<open>+\<close> wraps around and \<open>>\<close> compares them as signed numbers (\<open><s\<close> on words).
\<close>

record SubnetTracker =
  attempts :: "string \<rightharpoonup> 64 word"
  blacklist :: "string \<rightharpoonup> bool"
  lastReset :: int

text \<open>Reading a Go map at a key it does not hold gives the zero value.\<close>

definition attemptsAt :: "SubnetTracker \<Rightarrow> string \<Rightarrow> 64 word" where
  "attemptsAt t subnet = (case attempts t subnet of None \<Rightarrow> 0 | Some n \<Rightarrow> n)"

definition blacklistAt :: "SubnetTracker \<Rightarrow> string \<Rightarrow> bool" where
  "blacklistAt t subnet = (case blacklist t subnet of None \<Rightarrow> False | Some b \<Rightarrow> b)"

text \<open>\<open>NewTracker now\<close> is \<open>NewTracker()\<close> when \<open>time.Now()\<close> returns \<open>now\<close>.\<close>

definition NewTracker :: "int \<Rightarrow> SubnetTracker" where
  "NewTracker now = \<lparr>attempts = Map.empty, blacklist = Map.empty, lastReset = now\<rparr>"

text \<open>
  \<^verbatim>\<open>
  func (t *SubnetTracker) isBlocked(subnet string) bool {
      t.Lock()
      defer t.Unlock()
      return t.blacklist[subnet]
  }
  \<close>
\<close>

definition isBlocked :: "SubnetTracker \<Rightarrow> string \<Rightarrow> bool" where
  "isBlocked t subnet = blacklistAt t subnet"

text \<open>
  \<^verbatim>\<open>
  func (t *SubnetTracker) trackAttempt(subnet string, webhookURL string, logFile *os.File) {
      t.Lock()
      defer t.Unlock()
      if t.blacklist[subnet] {
          return
      }
      t.attempts[subnet]++
      // If more than 5 attempts in a minute, blacklist the subnet
      if t.attempts[subnet] > 5 {
          t.blacklist[subnet] = true
          msg := fmt.Sprintf("... Subnet `%s` blocked > %d attempts in the last minute",
              subnet, t.attempts[subnet])
          fmt.Printf(...)
          logEvent(logFile, "Block: %s", msg)
          webhook := DiscordMessage{Content: msg}
          jsonData, _ := json.Marshal(webhook)
          http.Post(webhookURL, "application/json", bytes.NewBuffer(jsonData))
      }
  }
  \<close>
  The model returns the tracker after the call and the effects of the call.
\<close>

definition trackAttempt :: "SubnetTracker \<Rightarrow> string \<Rightarrow> SubnetTracker \<times> effect list" where
  "trackAttempt t subnet =
     (if blacklistAt t subnet then (t, [])
      else
        let t1 = t\<lparr>attempts := (attempts t)(subnet \<mapsto> attemptsAt t subnet + 1)\<rparr> in
        if 5 <s attemptsAt t1 subnet then
          let t2 = t1\<lparr>blacklist := (blacklist t1)(subnet \<mapsto> True)\<rparr>;
              msg = BlockMsg subnet (attemptsAt t2 subnet)
          in (t2, [Stdout msg, LogBlock msg, Post msg])
        else (t1, []))"

text \<open>
  \<^verbatim>\<open>
  func (t *SubnetTracker) cleanup() {
      now := time.Now()
      if now.Sub(t.lastReset) < time.Minute {
          return
      }
      t.Lock()
      defer t.Unlock()
      // Reset attempt counts every minute
      t.attempts = make(map[string]int)
      t.lastReset = now
  }
  \<close>
  \<open>cleanup t now\<close> is the tracker after the call when \<open>time.Now()\<close> returns \<open>now\<close>.
\<close>

definition cleanup :: "SubnetTracker \<Rightarrow> int \<Rightarrow> SubnetTracker" where
  "cleanup t now =
     (if Sub now (lastReset t) < Minute then t
      else t\<lparr>attempts := Map.empty, lastReset := now\<rparr>)"

section \<open>The event pipeline\<close>

text \<open>
  \<open>getGeoIP\<close> asks a web service for the place of an address; \<open>geo\<close> stands for what
  the service (and the decoding of its answer) gives for an address.
  \<^verbatim>\<open>
  func getGeoIP(ip string) string {
      if ip == "" {
          return "Unknown"
      }
      resp, err := http.Get(fmt.Sprintf("http://ip-api.com/json/%s", ip))
      ...
  }
  \<close>
\<close>

definition getGeoIP :: "(string \<Rightarrow> string) \<Rightarrow> string \<Rightarrow> string" where
  "getGeoIP geo ip = (if ip = [] then ''Unknown'' else geo ip)"

text \<open>
  Lines 243 to 278 of \<open>main.go\<close>, the decision for an event with an address:
  \<^verbatim>\<open>
  if !tracker.isBlocked(subnet) {
      location := getGeoIP(ip)
      username := extractUsername(line)
      var event string
      if strings.Contains(line, "Accepted") {
          event = fmt.Sprintf("... Successful login from %s (%s) as '%s'", ip, location, username)
          fmt.Printf(...)
      } else {
          event = fmt.Sprintf("... SSH activity from %s (%s) Subnet: %s", ip, location, subnet)
          fmt.Printf(...)
      }
      logEvent(logFile, "Event: %s", event)
      webhook := DiscordMessage{Content: event}
      jsonData, _ := json.Marshal(webhook)
      http.Post(*webhookURL, "application/json", bytes.NewBuffer(jsonData))
      // Only track failed attempts
      if !strings.Contains(line, "Accepted") {
          tracker.trackAttempt(subnet, *webhookURL, logFile)
      }
  } else {
      // Log blocked attempts too
      logEvent(logFile, "Blocked attempt from %s (subnet %s)", ip, subnet)
  }
  \<close>
\<close>

definition handleEvent ::
  "(string \<Rightarrow> string) \<Rightarrow> SubnetTracker \<Rightarrow> string \<Rightarrow> string \<Rightarrow> string
     \<Rightarrow> SubnetTracker \<times> effect list" where
  "handleEvent geo t line ip subnet =
     (if \<not> isBlocked t subnet then
        let location = getGeoIP geo ip;
            username = extractUsername line;
            event = (if Contains line ''Accepted'' then Successful ip location username
                     else Activity ip location subnet);
            alert = [Stdout event, LogEvent event, Post event]
        in
          if \<not> Contains line ''Accepted'' then
            (let (t', block) = trackAttempt t subnet in (t', alert @ block))
          else (t, alert)
      else (t, [LogBlockedAttempt ip subnet]))"

text \<open>
  The body of the loop of \<open>main\<close> (lines 226 to 281) for one line of the event source;
  \<open>now\<close> is what \<open>time.Now()\<close> returns if this iteration reaches \<open>cleanup\<close>.
  \<^verbatim>\<open>
  for scanner.Scan() {
      line := scanner.Text()
      logEvent(logFile, "Raw: %s", line)
      if !strings.Contains(strings.ToLower(line), "ssh") {
          continue
      }
      ip := extractIP(line)
      if ip == "" {
          continue
      }
      subnet := getSubnet(ip)
      ... lines 243 to 278 ...
      tracker.cleanup()
  }
  \<close>
\<close>

definition processLine ::
  "(string \<Rightarrow> string) \<Rightarrow> SubnetTracker \<Rightarrow> string \<times> int \<Rightarrow> SubnetTracker \<times> effect list" where
  "processLine geo t ev =
     (let line = fst ev; now = snd ev in
      if \<not> Contains (ToLower line) ''ssh'' then (t, [LogRaw line])
      else
        let ip = extractIP line in
        if ip = [] then (t, [LogRaw line])
        else
          let subnet = getSubnet ip;
              (t', out) = handleEvent geo t line ip subnet
          in (cleanup t' now, LogRaw line # out))"

text \<open>The loop: the lines of the event source in arrival order, each with its clock reading.\<close>

fun mainLoop ::
  "(string \<Rightarrow> string) \<Rightarrow> SubnetTracker \<Rightarrow> (string \<times> int) list \<Rightarrow> SubnetTracker \<times> effect list" where
  "mainLoop geo t [] = (t, [])"
| "mainLoop geo t (ev # evs) =
     (let (t1, out1) = processLine geo t ev;
          (t2, out2) = mainLoop geo t1 evs
      in (t2, out1 @ out2))"

section \<open>Sequences of tracker operations\<close>

text \<open>
  A caller of the tracker makes a sequence of calls of its three operations; \<open>calls\<close>
  runs such a sequence and collects the effects.
\<close>

datatype call = IsBlocked string | TrackAttempt string | Cleanup int

fun doCall :: "SubnetTracker \<Rightarrow> call \<Rightarrow> SubnetTracker \<times> effect list" where
  "doCall t (IsBlocked subnet) = (t, [])"
| "doCall t (TrackAttempt subnet) = trackAttempt t subnet"
| "doCall t (Cleanup now) = (cleanup t now, [])"

fun calls :: "SubnetTracker \<Rightarrow> call list \<Rightarrow> SubnetTracker \<times> effect list" where
  "calls t [] = (t, [])"
| "calls t (c # cs) =
     (let (t1, out1) = doCall t c;
          (t2, out2) = calls t1 cs
      in (t2, out1 @ out2))"

text \<open>The trackers a program can reach from \<open>NewTracker\<close> through the operations.\<close>

inductive reachable :: "SubnetTracker \<Rightarrow> bool" where
  new: "reachable (NewTracker now)"
| track: "reachable t \<Longrightarrow> reachable (fst (trackAttempt t subnet))"
| clean: "reachable t \<Longrightarrow> reachable (cleanup t now)"

text \<open>The number of block alerts posted for a subnet among some effects.\<close>

fun isBlockAlert :: "string \<Rightarrow> effect \<Rightarrow> bool" where
  "isBlockAlert subnet (Post (BlockMsg s n)) = (s = subnet)"
| "isBlockAlert subnet e = False"

definition blockAlerts :: "string \<Rightarrow> effect list \<Rightarrow> nat" where
  "blockAlerts subnet out = length (filter (isBlockAlert subnet) out)"

section \<open>The tracker's operations with their lock and field accesses\<close>

text \<open>
  A second reading of the three methods of \<open>SubnetTracker\<close>, statement by statement, that
  also records what each statement does to the mutex and to the fields: \<open>t.Lock()\<close>,
  \<open>t.Unlock()\<close>, and every read and write of \<open>attempts\<close>, \<open>blacklist\<close> and \<open>lastReset\<close>,
  in program order.
\<close>

datatype field = Attempts | Blacklist | LastReset

datatype action = Lock | Unlock | Read field | Write field

record machine =
  tracker :: SubnetTracker
  actions :: "action list"
  emitted :: "effect list"

definition act :: "action \<Rightarrow> (machine, unit) state" where
  "act a = State (\<lambda>m. ((), m\<lparr>actions := actions m @ [a]\<rparr>))"

definition emit :: "effect \<Rightarrow> (machine, unit) state" where
  "emit e = State (\<lambda>m. ((), m\<lparr>emitted := emitted m @ [e]\<rparr>))"

definition readBlacklist :: "string \<Rightarrow> (machine, bool) state" where
  "readBlacklist subnet =
     State (\<lambda>m. (blacklistAt (tracker m) subnet, m\<lparr>actions := actions m @ [Read Blacklist]\<rparr>))"

definition writeBlacklist :: "string \<Rightarrow> bool \<Rightarrow> (machine, unit) state" where
  "writeBlacklist subnet b =
     State (\<lambda>m. ((), m\<lparr>tracker := (tracker m)\<lparr>blacklist := (blacklist (tracker m))(subnet \<mapsto> b)\<rparr>,
                         actions := actions m @ [Write Blacklist]\<rparr>))"

definition readAttempts :: "string \<Rightarrow> (machine, 64 word) state" where
  "readAttempts subnet =
     State (\<lambda>m. (attemptsAt (tracker m) subnet, m\<lparr>actions := actions m @ [Read Attempts]\<rparr>))"

definition writeAttempts :: "string \<Rightarrow> 64 word \<Rightarrow> (machine, unit) state" where
  "writeAttempts subnet n =
     State (\<lambda>m. ((), m\<lparr>tracker := (tracker m)\<lparr>attempts := (attempts (tracker m))(subnet \<mapsto> n)\<rparr>,
                         actions := actions m @ [Write Attempts]\<rparr>))"

definition resetAttempts :: "(machine, unit) state" where
  "resetAttempts =
     State (\<lambda>m. ((), m\<lparr>tracker := (tracker m)\<lparr>attempts := Map.empty\<rparr>,
                         actions := actions m @ [Write Attempts]\<rparr>))"

definition readLastReset :: "(machine, int) state" where
  "readLastReset =
     State (\<lambda>m. (lastReset (tracker m), m\<lparr>actions := actions m @ [Read LastReset]\<rparr>))"

definition writeLastReset :: "int \<Rightarrow> (machine, unit) state" where
  "writeLastReset now =
     State (\<lambda>m. ((), m\<lparr>tracker := (tracker m)\<lparr>lastReset := now\<rparr>,
                         actions := actions m @ [Write LastReset]\<rparr>))"

text \<open>
  \<open>t.Lock(); defer t.Unlock(); body\<close>: the deferred unlock runs when the function
  returns, on every path through \<open>body\<close>.
\<close>

definition lockDeferUnlock :: "(machine, 'a) state \<Rightarrow> (machine, 'a) state" where
  "lockDeferUnlock body = do { act Lock; r \<leftarrow> body; act Unlock; State_Monad.return r }"

text \<open>\<open>isBlocked\<close>, lines 103 to 107.\<close>

definition isBlockedM :: "string \<Rightarrow> (machine, bool) state" where
  "isBlockedM subnet = lockDeferUnlock (readBlacklist subnet)"

text \<open>
  \<open>trackAttempt\<close>, lines 109 to 138. \<open>t.attempts[subnet]++\<close> reads and writes the
  counter; the test \<open>t.attempts[subnet] > 5\<close> and the two formatting calls each read it
  again.
\<close>

definition trackAttemptM :: "string \<Rightarrow> (machine, unit) state" where
  "trackAttemptM subnet =
     lockDeferUnlock (do {
       b \<leftarrow> readBlacklist subnet;
       if b then State_Monad.return ()
       else do {
         n \<leftarrow> readAttempts subnet;
         writeAttempts subnet (n + 1);
         n1 \<leftarrow> readAttempts subnet;
         if 5 <s n1 then do {
           writeBlacklist subnet True;
           n2 \<leftarrow> readAttempts subnet;
           n3 \<leftarrow> readAttempts subnet;
           emit (Stdout (BlockMsg subnet n3));
           emit (LogBlock (BlockMsg subnet n2));
           emit (Post (BlockMsg subnet n2))
         }
         else State_Monad.return ()
       }
     })"

text \<open>
  \<open>cleanup\<close>, lines 140 to 152: the test of \<open>t.lastReset\<close> on line 142 comes before
  \<open>t.Lock()\<close> on line 146.
\<close>

definition cleanupM :: "int \<Rightarrow> (machine, unit) state" where
  "cleanupM now = do {
     u \<leftarrow> readLastReset;
     if Sub now u < Minute then State_Monad.return ()
     else lockDeferUnlock (do {
       resetAttempts;
       writeLastReset now
     })
   }"

text \<open>An operation started on tracker \<open>t\<close>, with nothing recorded yet.\<close>

definition start :: "SubnetTracker \<Rightarrow> machine" where
  "start t = \<lparr>tracker = t, actions = [], emitted = []\<rparr>"

text \<open>
  \<open>guarded held as\<close>: every field access among the actions \<open>as\<close> happens while the mutex
  is held, \<open>held\<close> telling whether it is held before the first action.
\<close>

fun guarded :: "bool \<Rightarrow> action list \<Rightarrow> bool" where
  "guarded held [] = True"
| "guarded held (Lock # as) = guarded True as"
| "guarded held (Unlock # as) = guarded False as"
| "guarded held (Read f # as) = (held \<and> guarded held as)"
| "guarded held (Write f # as) = (held \<and> guarded held as)"

text \<open>
  \<open>criticalSection as\<close>: the actions are one critical section, a \<open>Lock\<close>, then field
  accesses only, then the \<open>Unlock\<close>.
\<close>

fun isAccess :: "action \<Rightarrow> bool" where
  "isAccess (Read f) = True"
| "isAccess (Write f) = True"
| "isAccess a = False"

definition criticalSection :: "action list \<Rightarrow> bool" where
  "criticalSection as =
     (case as of
        [] \<Rightarrow> False
      | a # rest \<Rightarrow> a = Lock \<and> rest \<noteq> [] \<and> last rest = Unlock \<and> list_all isAccess (butlast rest))"

section \<open>The range of the counters\<close>

text \<open>
  \<open>counterOK t s\<close>: the counter of subnet \<open>s\<close> is between 0 and 6, and it is 6 only if
  the subnet is blocked.
\<close>

definition counterOK :: "SubnetTracker \<Rightarrow> string \<Rightarrow> bool" where
  "counterOK t s \<longleftrightarrow>
     attemptsAt t s \<in> {0, 1, 2, 3, 4, 5, 6} \<and> (attemptsAt t s = 6 \<longrightarrow> blacklistAt t s)"

section \<open>Facts about the string functions\<close>

lemma Split_nonempty: "Split s sep \<noteq> []"
  by (induction s) (auto split: list.splits)

lemma Split_part: "sep \<notin> set a \<Longrightarrow> Split (a @ sep # r) sep = a # Split r sep"
  by (induction a) (auto split: list.splits)

lemma Split_last: "sep \<notin> set a \<Longrightarrow> Split a sep = [a]"
  by (induction a) (auto split: list.splits)

text \<open>A string has one component more than it has separators.\<close>

lemma length_Split: "length (Split s sep) = Suc (count_list s sep)"
  by (induction s) (auto split: list.splits)

text \<open>Joining the components gives the string back, and splitting a join gives the parts back.\<close>

lemma Join_Split: "Join (Split s sep) [sep] = s"
proof (induction s)
  case Nil
  then show ?case by simp
next
  case (Cons c cs)
  obtain p ps where sp: "Split cs sep = p # ps"
    using Split_nonempty[of cs sep] by (cases "Split cs sep") auto
  show ?case using Cons sp by (cases ps) auto
qed

lemma Split_Join:
  "parts \<noteq> [] \<Longrightarrow> \<forall>p \<in> set parts. sep \<notin> set p \<Longrightarrow> Split (Join parts [sep]) sep = parts"
proof (induction parts "[sep]" rule: Join.induct)
  case 1
  then show ?case by simp
next
  case (2 x)
  then show ?case by (simp add: Split_last)
next
  case (3 x y ys)
  then show ?case by (simp add: Split_part)
qed

lemma getSubnet_four:
  "Split ip (CHR ''.'') = [a, b, c, d] \<Longrightarrow> getSubnet ip = a @ ''.'' @ b @ ''.'' @ c @ ''.0/24''"
  by (simp add: getSubnet_def)

section \<open>Facts about the tracker\<close>

text \<open>Saturation of \<open>Sub\<close> happens far from one minute: the test of \<open>cleanup\<close> is on the true difference.\<close>

lemma Sub_less_Minute: "Sub now u < Minute \<longleftrightarrow> now - u < Minute"
  by (simp add: Sub_def Minute_def maxDuration_def minDuration_def)

text \<open>
  Every reachable tracker keeps its counters in range, so the increment of
  \<open>trackAttempt\<close> never wraps around.
\<close>

lemma counterOK_new: "counterOK (NewTracker now) s"
  by (simp add: counterOK_def NewTracker_def attemptsAt_def)

lemma counterOK_cleanup: "counterOK t s \<Longrightarrow> counterOK (cleanup t now) s"
  by (auto simp: counterOK_def cleanup_def attemptsAt_def blacklistAt_def)

lemma counterOK_track: "counterOK t s \<Longrightarrow> counterOK (fst (trackAttempt t g)) s"
  by (cases "s = g")
    (auto simp: counterOK_def trackAttempt_def attemptsAt_def blacklistAt_def Let_def
      word_sless_alt)

lemma reachable_counterOK: "reachable t \<Longrightarrow> counterOK t s"
  by (induction rule: reachable.induct)
    (simp_all add: counterOK_new counterOK_cleanup counterOK_track)

lemma counterOK_threshold:
  "counterOK t g \<Longrightarrow> \<not> isBlocked t g \<Longrightarrow> (5 <s attemptsAt t g + 1) = (attemptsAt t g = 5)"
  by (auto simp: counterOK_def isBlocked_def word_sless_alt)

lemma track_out:
  "counterOK t g \<Longrightarrow>
     snd (trackAttempt t g) =
       (if \<not> isBlocked t g \<and> 5 <s attemptsAt t g + 1
        then [Stdout (BlockMsg g 6), LogBlock (BlockMsg g 6), Post (BlockMsg g 6)] else [])"
  by (auto simp: counterOK_def trackAttempt_def attemptsAt_def blacklistAt_def isBlocked_def
      Let_def word_sless_alt)

lemma track_blocked:
  "isBlocked (fst (trackAttempt t g)) s \<longleftrightarrow>
     isBlocked t s \<or> (s = g \<and> 5 <s attemptsAt t g + 1)"
  by (auto simp: trackAttempt_def attemptsAt_def blacklistAt_def isBlocked_def Let_def)

lemma track_count:
  "\<not> isBlocked t g \<Longrightarrow> attemptsAt (fst (trackAttempt t g)) g = attemptsAt t g + 1"
  by (auto simp: trackAttempt_def attemptsAt_def blacklistAt_def isBlocked_def Let_def)

lemma track_noop: "isBlocked t g \<Longrightarrow> trackAttempt t g = (t, [])"
  by (simp add: trackAttempt_def isBlocked_def)

lemma track_alerts:
  "blockAlerts s (snd (trackAttempt t g)) =
     (if \<not> isBlocked t s \<and> isBlocked (fst (trackAttempt t g)) s then 1 else 0)"
  by (auto simp: trackAttempt_def blockAlerts_def attemptsAt_def blacklistAt_def isBlocked_def
      Let_def)

lemma track_mono: "isBlocked t s \<Longrightarrow> isBlocked (fst (trackAttempt t g)) s"
  by (simp add: track_blocked)

lemma cleanup_blacklist: "blacklist (cleanup t now) = blacklist t"
  by (simp add: cleanup_def)

lemma cleanup_blocked: "isBlocked (cleanup t now) s = isBlocked t s"
  by (simp add: isBlocked_def blacklistAt_def cleanup_blacklist)

lemma doCall_alerts:
  "blockAlerts s (snd (doCall t c)) =
     (if \<not> isBlocked t s \<and> isBlocked (fst (doCall t c)) s then 1 else 0)"
proof (cases c)
  case (TrackAttempt g)
  then show ?thesis by (simp add: track_alerts)
qed (simp_all add: cleanup_blocked blockAlerts_def)

lemma doCall_mono: "isBlocked t s \<Longrightarrow> isBlocked (fst (doCall t c)) s"
  by (cases c) (simp_all add: track_mono cleanup_blocked)

lemma calls_mono: "isBlocked t s \<Longrightarrow> isBlocked (fst (calls t cs)) s"
proof (induction cs arbitrary: t)
  case Nil
  then show ?case by simp
next
  case (Cons c cs)
  have "isBlocked (fst (doCall t c)) s" using Cons.prems by (rule doCall_mono)
  then have "isBlocked (fst (calls (fst (doCall t c)) cs)) s" by (rule Cons.IH)
  then show ?case by (simp add: split_beta)
qed

lemma blockAlerts_append: "blockAlerts s (xs @ ys) = blockAlerts s xs + blockAlerts s ys"
  by (simp add: blockAlerts_def)

text \<open>
  Over any sequence of calls, a subnet gets one block alert if the sequence takes it
  from unblocked to blocked, and none otherwise.
\<close>

lemma calls_alerts:
  "blockAlerts s (snd (calls t cs)) =
     (if \<not> isBlocked t s \<and> isBlocked (fst (calls t cs)) s then 1 else 0)"
proof (induction cs arbitrary: t)
  case Nil
  then show ?case by (simp add: blockAlerts_def)
next
  case (Cons c cs)
  obtain t1 out1 where c1: "doCall t c = (t1, out1)" by (cases "doCall t c")
  obtain t2 out2 where c2: "calls t1 cs = (t2, out2)" by (cases "calls t1 cs")
  have a1: "blockAlerts s out1 = (if \<not> isBlocked t s \<and> isBlocked t1 s then 1 else 0)"
    using doCall_alerts[of s t c] c1 by simp
  have a2: "blockAlerts s out2 = (if \<not> isBlocked t1 s \<and> isBlocked t2 s then 1 else 0)"
    using Cons.IH[of t1] c2 by simp
  have m1: "isBlocked t s \<Longrightarrow> isBlocked t1 s"
    using doCall_mono[of t s c] c1 by simp
  have m2: "isBlocked t1 s \<Longrightarrow> isBlocked t2 s"
    using calls_mono[of t1 s cs] c2 by simp
  show ?case
    using a1 a2 m1 m2 by (auto simp: c1 c2 blockAlerts_append)
qed

lemma reachable_doCall: "reachable t \<Longrightarrow> reachable (fst (doCall t c))"
  by (cases c) (simp_all add: reachable.track reachable.clean)

lemma reachable_calls: "reachable t \<Longrightarrow> reachable (fst (calls t cs))"
proof (induction cs arbitrary: t)
  case Nil
  then show ?case by simp
next
  case (Cons c cs)
  have "reachable (fst (doCall t c))" using Cons.prems by (rule reachable_doCall)
  then have "reachable (fst (calls (fst (doCall t c)) cs))" by (rule Cons.IH)
  then show ?case by (simp add: split_beta)
qed

lemma calls_blocked_noop:
  "isBlocked t g \<Longrightarrow> calls t (replicate n (TrackAttempt g)) = (t, [])"
  by (induction n) (simp_all add: track_noop)

section \<open>Facts about the event pipeline\<close>

lemma handleEvent_blocked:
  "isBlocked t subnet \<Longrightarrow> handleEvent geo t line ip subnet = (t, [LogBlockedAttempt ip subnet])"
  by (simp add: handleEvent_def)

lemma handleEvent_accepted:
  "Contains line ''Accepted'' \<Longrightarrow> \<not> isBlocked t subnet \<Longrightarrow>
     handleEvent geo t line ip subnet =
       (t, [Stdout (Successful ip (getGeoIP geo ip) (extractUsername line)),
            LogEvent (Successful ip (getGeoIP geo ip) (extractUsername line)),
            Post (Successful ip (getGeoIP geo ip) (extractUsername line))])"
  by (simp add: handleEvent_def Let_def)

lemma handleEvent_other:
  "\<not> Contains line ''Accepted'' \<Longrightarrow> \<not> isBlocked t subnet \<Longrightarrow>
     handleEvent geo t line ip subnet =
       (fst (trackAttempt t subnet),
        [Stdout (Activity ip (getGeoIP geo ip) subnet),
         LogEvent (Activity ip (getGeoIP geo ip) subnet),
         Post (Activity ip (getGeoIP geo ip) subnet)] @ snd (trackAttempt t subnet))"
  by (simp add: handleEvent_def Let_def split_beta)

lemma handleEvent_mono: "isBlocked t s \<Longrightarrow> isBlocked (fst (handleEvent geo t line ip subnet)) s"
  by (simp add: handleEvent_def Let_def split_beta track_mono)

lemma processLine_skip:
  "\<not> (Contains (ToLower line) ''ssh'' \<and> extractIP line \<noteq> []) \<Longrightarrow>
     processLine geo t (line, now) = (t, [LogRaw line])"
  by (auto simp: processLine_def Let_def)

lemma processLine_handled:
  "Contains (ToLower line) ''ssh'' \<Longrightarrow> extractIP line \<noteq> [] \<Longrightarrow>
     processLine geo t (line, now) =
       (cleanup (fst (handleEvent geo t line (extractIP line) (getSubnet (extractIP line)))) now,
        LogRaw line # snd (handleEvent geo t line (extractIP line) (getSubnet (extractIP line))))"
  by (simp add: processLine_def Let_def split_beta)

lemma processLine_mono: "isBlocked t s \<Longrightarrow> isBlocked (fst (processLine geo t ev)) s"
proof (cases "Contains (ToLower (fst ev)) ''ssh'' \<and> extractIP (fst ev) \<noteq> []")
  case True
  assume "isBlocked t s"
  then show ?thesis
    using True processLine_handled[of "fst ev" geo t "snd ev"]
    by (simp add: cleanup_blocked handleEvent_mono)
next
  case False
  assume "isBlocked t s"
  then show ?thesis
    using False processLine_skip[of "fst ev" geo t "snd ev"] by simp
qed

lemma mainLoop_mono: "isBlocked t s \<Longrightarrow> isBlocked (fst (mainLoop geo t evs)) s"
proof (induction evs arbitrary: t)
  case Nil
  then show ?case by simp
next
  case (Cons ev evs)
  have "isBlocked (fst (processLine geo t ev)) s" using Cons.prems by (rule processLine_mono)
  then have "isBlocked (fst (mainLoop geo (fst (processLine geo t ev)) evs)) s" by (rule Cons.IH)
  then show ?case by (simp add: split_beta)
qed

text \<open>
  The same count for the pipeline: over any lines a subnet gets one block alert if the
  main loop takes it from unblocked to blocked, and none otherwise.
\<close>

lemma handleEvent_alerts:
  "blockAlerts s (snd (handleEvent geo t line ip subnet)) =
     (if \<not> isBlocked t s \<and> isBlocked (fst (handleEvent geo t line ip subnet)) s then 1 else 0)"
proof (cases "isBlocked t subnet")
  case True
  then show ?thesis by (simp add: handleEvent_blocked blockAlerts_def)
next
  case False
  show ?thesis
  proof (cases "Contains line ''Accepted''")
    case True
    then show ?thesis using False by (simp add: handleEvent_accepted blockAlerts_def)
  next
    case no: False
    have "blockAlerts s (snd (handleEvent geo t line ip subnet))
            = blockAlerts s (snd (trackAttempt t subnet))"
      using no False by (simp add: handleEvent_other blockAlerts_def)
    then show ?thesis
      using no False by (simp add: handleEvent_other track_alerts)
  qed
qed

lemma processLine_alerts:
  "blockAlerts s (snd (processLine geo t ev)) =
     (if \<not> isBlocked t s \<and> isBlocked (fst (processLine geo t ev)) s then 1 else 0)"
proof (cases "Contains (ToLower (fst ev)) ''ssh'' \<and> extractIP (fst ev) \<noteq> []")
  case True
  have "blockAlerts s (snd (processLine geo t ev))
          = blockAlerts s (snd (handleEvent geo t (fst ev) (extractIP (fst ev))
                                  (getSubnet (extractIP (fst ev)))))"
    using True processLine_handled[of "fst ev" geo t "snd ev"] by (simp add: blockAlerts_def)
  then show ?thesis
    using True processLine_handled[of "fst ev" geo t "snd ev"]
    by (simp add: handleEvent_alerts cleanup_blocked)
next
  case False
  then show ?thesis
    using processLine_skip[of "fst ev" geo t "snd ev"] by (simp add: blockAlerts_def)
qed

lemma mainLoop_alerts:
  "blockAlerts s (snd (mainLoop geo t evs)) =
     (if \<not> isBlocked t s \<and> isBlocked (fst (mainLoop geo t evs)) s then 1 else 0)"
proof (induction evs arbitrary: t)
  case Nil
  then show ?case by (simp add: blockAlerts_def)
next
  case (Cons ev evs)
  obtain t1 out1 where c1: "processLine geo t ev = (t1, out1)" by (cases "processLine geo t ev")
  obtain t2 out2 where c2: "mainLoop geo t1 evs = (t2, out2)" by (cases "mainLoop geo t1 evs")
  have a1: "blockAlerts s out1 = (if \<not> isBlocked t s \<and> isBlocked t1 s then 1 else 0)"
    using processLine_alerts[of s geo t ev] c1 by simp
  have a2: "blockAlerts s out2 = (if \<not> isBlocked t1 s \<and> isBlocked t2 s then 1 else 0)"
    using Cons.IH[of t1] c2 by simp
  have m1: "isBlocked t s \<Longrightarrow> isBlocked t1 s"
    using processLine_mono[of t s geo ev] c1 by simp
  have m2: "isBlocked t1 s \<Longrightarrow> isBlocked t2 s"
    using mainLoop_mono[of t1 s geo evs] c2 by simp
  show ?case
    using a1 a2 m1 m2 by (auto simp: c1 c2 blockAlerts_append)
qed

lemma mainLoop_irrelevant:
  "\<forall>ev \<in> set evs. \<not> (Contains (ToLower (fst ev)) ''ssh'' \<and> extractIP (fst ev) \<noteq> []) \<Longrightarrow>
     mainLoop geo t evs = (t, map (\<lambda>ev. LogRaw (fst ev)) evs)"
proof (induction evs)
  case Nil
  then show ?case by simp
next
  case (Cons ev evs)
  have "processLine geo t ev = (t, [LogRaw (fst ev)])"
    using Cons.prems processLine_skip[of "fst ev" geo t "snd ev"] by simp
  then show ?case using Cons by simp
qed

section \<open>Facts about the lock\<close>

lemmas machine_defs = act_def emit_def readBlacklist_def writeBlacklist_def readAttempts_def
  writeAttempts_def resetAttempts_def readLastReset_def writeLastReset_def lockDeferUnlock_def
  start_def

text \<open>The second reading computes what the first does.\<close>

lemma isBlockedM_run:
  "run_state (isBlockedM subnet) (start t) =
     (isBlocked t subnet, \<lparr>tracker = t, actions = [Lock, Read Blacklist, Unlock], emitted = []\<rparr>)"
  by (simp add: isBlockedM_def machine_defs isBlocked_def)

lemma trackAttemptM_result:
  "tracker (snd (run_state (trackAttemptM subnet) (start t))) = fst (trackAttempt t subnet)
   \<and> emitted (snd (run_state (trackAttemptM subnet) (start t))) = snd (trackAttempt t subnet)"
  by (simp add: trackAttemptM_def machine_defs trackAttempt_def Let_def attemptsAt_def
      blacklistAt_def)

lemma cleanupM_result:
  "tracker (snd (run_state (cleanupM now) (start t))) = cleanup t now
   \<and> emitted (snd (run_state (cleanupM now) (start t))) = []"
  by (simp add: cleanupM_def machine_defs cleanup_def)

lemma trackAttemptM_actions:
  "actions (snd (run_state (trackAttemptM subnet) (start t))) =
     (if blacklistAt t subnet then [Lock, Read Blacklist, Unlock]
      else if 5 <s attemptsAt t subnet + 1
      then [Lock, Read Blacklist, Read Attempts, Write Attempts, Read Attempts,
            Write Blacklist, Read Attempts, Read Attempts, Unlock]
      else [Lock, Read Blacklist, Read Attempts, Write Attempts, Read Attempts, Unlock])"
  by (simp add: trackAttemptM_def machine_defs Let_def attemptsAt_def blacklistAt_def)

lemma cleanupM_actions:
  "actions (snd (run_state (cleanupM now) (start t))) =
     (if Sub now (lastReset t) < Minute then [Read LastReset]
      else [Read LastReset, Lock, Write Attempts, Write LastReset, Unlock])"
  by (simp add: cleanupM_def machine_defs)

section \<open>Concrete lines used below\<close>

lemma failed_line_ssh:
  "Contains (ToLower ''sshd: Failed password for root from 10.0.0.7 port 22'') ''ssh''"
  by (simp add: ToLower_def toLowerByte_def)

lemma failed_line_ip:
  "extractIP ''sshd: Failed password for root from 10.0.0.7 port 22'' = ''10.0.0.7''"
  by (simp add: extractIP_def ipPatterns_def ipv4_def)

lemma accepted_line_ssh:
  "Contains (ToLower ''sshd: Accepted password for root from 10.0.0.7 port 22'') ''ssh''"
  by (simp add: ToLower_def toLowerByte_def)

lemma accepted_line_ip:
  "extractIP ''sshd: Accepted password for root from 10.0.0.7 port 22'' = ''10.0.0.7''"
  by (simp add: extractIP_def ipPatterns_def ipv4_def)

lemma accepted_line_user:
  "extractUsername ''sshd: Accepted password for root from 10.0.0.7 port 22'' = ''root''"
  by (simp add: extractUsername_def userPatterns_def)

lemma lower_line_ssh:
  "Contains (ToLower ''SSHD: accepted password for root from 10.0.0.7 port 22'') ''ssh''"
  by (simp add: ToLower_def toLowerByte_def)

lemma lower_line_ip:
  "extractIP ''SSHD: accepted password for root from 10.0.0.7 port 22'' = ''10.0.0.7''"
  by (simp add: extractIP_def ipPatterns_def ipv4_def)

lemma subnet_of_example: "getSubnet ''10.0.0.7'' = ''10.0.0.0/24''"
  by (simp add: getSubnet_def)

lemma no_address_line: "extractIP ''sshd: bye'' = []"
  by (simp add: extractIP_def ipPatterns_def ipv4_def)

lemmas tracker_defs = trackAttempt_def cleanup_def NewTracker_def attemptsAt_def
  blacklistAt_def isBlocked_def Let_def Sub_def Minute_def maxDuration_def minDuration_def
  word_sless_alt

section \<open>C1: one block and one block alert, at the call that takes the counter past 5\<close>

text \<open>
  C1. In a reachable tracker, a call of \<open>trackAttempt\<close> for a subnet emits the block
  alert (the line on standard output, the \<open>Block:\<close> log record and the post to the
  webhook, once each) exactly when the subnet is not yet blocked and the counter after
  the increment exceeds 5, and emits nothing otherwise; a subnet is blocked after the
  call exactly when it was blocked before or it is the call's subnet and that condition
  holds; for a subnet that is not blocked the condition holds exactly when the counter
  stood at 5 before the call, so it is the call that moves the counter from 5 to 6, and
  no earlier one (smaller counter) and no later one (the subnet is blocked then). Over
  any sequence of calls of the tracker's operations, and over any run of the main loop,
  the number of block alerts for a subnet is one if the run blocks it and zero
  otherwise.
\<close>

theorem trackAttempt_blocks_exactly_once:
  assumes "reachable t"
  shows "snd (trackAttempt t g) =
           (if \<not> isBlocked t g \<and> 5 <s attemptsAt t g + 1
            then [Stdout (BlockMsg g 6), LogBlock (BlockMsg g 6), Post (BlockMsg g 6)]
            else [])
       \<and> (isBlocked (fst (trackAttempt t g)) s \<longleftrightarrow>
            isBlocked t s \<or> (s = g \<and> 5 <s attemptsAt t g + 1))
       \<and> (\<not> isBlocked t g \<longrightarrow>
            (5 <s attemptsAt t g + 1) = (attemptsAt t g = 5)
            \<and> attemptsAt (fst (trackAttempt t g)) g = attemptsAt t g + 1)
       \<and> blockAlerts g (snd (calls t cs)) =
            (if \<not> isBlocked t g \<and> isBlocked (fst (calls t cs)) g then 1 else 0)
       \<and> blockAlerts g (snd (mainLoop geo t evs)) =
            (if \<not> isBlocked t g \<and> isBlocked (fst (mainLoop geo t evs)) g then 1 else 0)"
proof -
  have ok: "counterOK t g" using assms by (rule reachable_counterOK)
  show ?thesis
    using track_out[OF ok] track_blocked[of t g s] counterOK_threshold[OF ok]
      track_count[of t g] calls_alerts[of g t cs] mainLoop_alerts[of g geo t evs]
    by simp
qed

text \<open>
  Six attempts on a new tracker: the fifth call emits nothing and leaves the subnet
  unblocked, the sixth emits the alert and blocks it, and nine calls in a row give one
  alert. In the pipeline, a failed login from \<open>10.0.0.7\<close> as the sixth attempt of its
  subnet gives one block alert.
\<close>

theorem trackAttempt_blocks_exactly_once_witness:
  "reachable (fst (calls (NewTracker 0)
      [TrackAttempt ''10.0.0.0/24'', TrackAttempt ''10.0.0.0/24'', TrackAttempt ''10.0.0.0/24'',
       TrackAttempt ''10.0.0.0/24'']))
   \<and> trackAttempt (fst (calls (NewTracker 0)
      [TrackAttempt ''10.0.0.0/24'', TrackAttempt ''10.0.0.0/24'', TrackAttempt ''10.0.0.0/24'',
       TrackAttempt ''10.0.0.0/24''])) ''10.0.0.0/24''
     = (fst (calls (NewTracker 0)
      [TrackAttempt ''10.0.0.0/24'', TrackAttempt ''10.0.0.0/24'', TrackAttempt ''10.0.0.0/24'',
       TrackAttempt ''10.0.0.0/24'', TrackAttempt ''10.0.0.0/24'']), [])
   \<and> \<not> isBlocked (fst (calls (NewTracker 0)
      [TrackAttempt ''10.0.0.0/24'', TrackAttempt ''10.0.0.0/24'', TrackAttempt ''10.0.0.0/24'',
       TrackAttempt ''10.0.0.0/24'', TrackAttempt ''10.0.0.0/24''])) ''10.0.0.0/24''
   \<and> reachable (fst (calls (NewTracker 0)
      [TrackAttempt ''10.0.0.0/24'', TrackAttempt ''10.0.0.0/24'', TrackAttempt ''10.0.0.0/24'',
       TrackAttempt ''10.0.0.0/24'', TrackAttempt ''10.0.0.0/24'']))
   \<and> snd (trackAttempt (fst (calls (NewTracker 0)
      [TrackAttempt ''10.0.0.0/24'', TrackAttempt ''10.0.0.0/24'', TrackAttempt ''10.0.0.0/24'',
       TrackAttempt ''10.0.0.0/24'', TrackAttempt ''10.0.0.0/24''])) ''10.0.0.0/24'')
     = [Stdout (BlockMsg ''10.0.0.0/24'' 6), LogBlock (BlockMsg ''10.0.0.0/24'' 6),
        Post (BlockMsg ''10.0.0.0/24'' 6)]
   \<and> isBlocked (fst (trackAttempt (fst (calls (NewTracker 0)
      [TrackAttempt ''10.0.0.0/24'', TrackAttempt ''10.0.0.0/24'', TrackAttempt ''10.0.0.0/24'',
       TrackAttempt ''10.0.0.0/24'', TrackAttempt ''10.0.0.0/24''])) ''10.0.0.0/24''))
      ''10.0.0.0/24''
   \<and> blockAlerts ''10.0.0.0/24'' (snd (calls (NewTracker 0)
      [TrackAttempt ''10.0.0.0/24'', TrackAttempt ''10.0.0.0/24'', TrackAttempt ''10.0.0.0/24'',
       TrackAttempt ''10.0.0.0/24'', TrackAttempt ''10.0.0.0/24'', TrackAttempt ''10.0.0.0/24'',
       TrackAttempt ''10.0.0.0/24'', TrackAttempt ''10.0.0.0/24'',
       TrackAttempt ''10.0.0.0/24''])) = 1
   \<and> blockAlerts ''10.0.0.0/24'' (snd (mainLoop (\<lambda>ip. ''Unknown'') (fst (calls (NewTracker 0)
      [TrackAttempt ''10.0.0.0/24'', TrackAttempt ''10.0.0.0/24'', TrackAttempt ''10.0.0.0/24'',
       TrackAttempt ''10.0.0.0/24'', TrackAttempt ''10.0.0.0/24'']))
      [(''sshd: Failed password for root from 10.0.0.7 port 22'', 1000000000)])) = 1"
proof -
  let ?g = "''10.0.0.0/24''"
  let ?four = "[TrackAttempt ?g, TrackAttempt ?g, TrackAttempt ?g, TrackAttempt ?g]"
  let ?five = "TrackAttempt ?g # ?four"
  let ?nine = "?four @ ?five"
  have r0: "reachable (NewTracker 0)" by (rule reachable.new)
  have r4: "reachable (fst (calls (NewTracker 0) ?four))" using r0 by (rule reachable_calls)
  have r5: "reachable (fst (calls (NewTracker 0) ?five))" using r0 by (rule reachable_calls)
  have c4: "attemptsAt (fst (calls (NewTracker 0) ?four)) ?g = 4
            \<and> \<not> isBlocked (fst (calls (NewTracker 0) ?four)) ?g"
    by (simp add: tracker_defs)
  have c5: "attemptsAt (fst (calls (NewTracker 0) ?five)) ?g = 5
            \<and> \<not> isBlocked (fst (calls (NewTracker 0) ?five)) ?g"
    by (simp add: tracker_defs)
  have step: "fst (trackAttempt (fst (calls (NewTracker 0) ?four)) ?g)
              = fst (calls (NewTracker 0) ?five)"
    by (simp add: tracker_defs)
  have b9: "isBlocked (fst (calls (NewTracker 0) ?nine)) ?g
            \<and> \<not> isBlocked (NewTracker 0) ?g"
    by (simp add: tracker_defs)
  have b6: "isBlocked (fst (trackAttempt (fst (calls (NewTracker 0) ?five)) ?g)) ?g"
    using c5 by (simp add: track_blocked word_sless_alt)
  have m6: "isBlocked (fst (mainLoop (\<lambda>ip. ''Unknown'') (fst (calls (NewTracker 0) ?five))
              [(''sshd: Failed password for root from 10.0.0.7 port 22'', 1000000000)])) ?g"
    using b6 c5
    by (simp add: processLine_handled failed_line_ssh failed_line_ip subnet_of_example
        handleEvent_other cleanup_blocked)
  show ?thesis
    using trackAttempt_blocks_exactly_once[OF r4, of ?g ?g "[]" "\<lambda>ip. ''Unknown''" "[]"]
      trackAttempt_blocks_exactly_once[OF r5, of ?g ?g "[]" "\<lambda>ip. ''Unknown''"
        "[(''sshd: Failed password for root from 10.0.0.7 port 22'', 1000000000)]"]
      trackAttempt_blocks_exactly_once[OF r0, of ?g ?g ?nine "\<lambda>ip. ''Unknown''" "[]"]
      r4 r5 c4 c5 step b9 m6
    by (simp add: prod_eq_iff)
qed

section \<open>C2: a blocked subnet is left alone\<close>

text \<open>
  C2. For a subnet that is blocked, \<open>trackAttempt\<close> returns the tracker as it was
  (counters, blocked set and \<open>lastReset\<close>) and emits nothing, however often it is called;
  and the pipeline's decision for an event of that subnet (lines 243 to 278) writes the
  \<open>Blocked attempt\<close> log record and nothing else, posts no alert and leaves the tracker
  as it was. Over the whole loop iteration the line's raw record comes before it and
  the window check of \<open>cleanup\<close> after it.
\<close>

theorem blocked_subnet_is_suppressed:
  assumes "isBlocked t subnet"
  shows "trackAttempt t subnet = (t, [])
       \<and> calls t (replicate n (TrackAttempt subnet)) = (t, [])
       \<and> handleEvent geo t line ip subnet = (t, [LogBlockedAttempt ip subnet])
       \<and> (Contains (ToLower line) ''ssh'' \<and> extractIP line \<noteq> []
            \<and> getSubnet (extractIP line) = subnet \<longrightarrow>
          processLine geo t (line, now) =
            (cleanup t now, [LogRaw line, LogBlockedAttempt (extractIP line) subnet]))"
proof -
  have "Contains (ToLower line) ''ssh'' \<and> extractIP line \<noteq> []
          \<and> getSubnet (extractIP line) = subnet \<longrightarrow>
        processLine geo t (line, now) =
          (cleanup t now, [LogRaw line, LogBlockedAttempt (extractIP line) subnet])"
    using assms by (auto simp: processLine_handled handleEvent_blocked)
  then show ?thesis
    using assms by (simp add: track_noop calls_blocked_noop handleEvent_blocked)
qed

text \<open>
  The subnet blocked by six attempts, then a seventh failed login from \<open>10.0.0.7\<close>, one
  second after the tracker was made.
\<close>

theorem blocked_subnet_is_suppressed_witness:
  "isBlocked (fst (calls (NewTracker 0)
      [TrackAttempt ''10.0.0.0/24'', TrackAttempt ''10.0.0.0/24'', TrackAttempt ''10.0.0.0/24'',
       TrackAttempt ''10.0.0.0/24'', TrackAttempt ''10.0.0.0/24'', TrackAttempt ''10.0.0.0/24'']))
     ''10.0.0.0/24''
   \<and> processLine (\<lambda>ip. ''Unknown'') (fst (calls (NewTracker 0)
      [TrackAttempt ''10.0.0.0/24'', TrackAttempt ''10.0.0.0/24'', TrackAttempt ''10.0.0.0/24'',
       TrackAttempt ''10.0.0.0/24'', TrackAttempt ''10.0.0.0/24'', TrackAttempt ''10.0.0.0/24'']))
      (''sshd: Failed password for root from 10.0.0.7 port 22'', 1000000000)
     = (fst (calls (NewTracker 0)
      [TrackAttempt ''10.0.0.0/24'', TrackAttempt ''10.0.0.0/24'', TrackAttempt ''10.0.0.0/24'',
       TrackAttempt ''10.0.0.0/24'', TrackAttempt ''10.0.0.0/24'', TrackAttempt ''10.0.0.0/24'']),
        [LogRaw ''sshd: Failed password for root from 10.0.0.7 port 22'',
         LogBlockedAttempt ''10.0.0.7'' ''10.0.0.0/24''])
   \<and> trackAttempt (fst (calls (NewTracker 0)
      [TrackAttempt ''10.0.0.0/24'', TrackAttempt ''10.0.0.0/24'', TrackAttempt ''10.0.0.0/24'',
       TrackAttempt ''10.0.0.0/24'', TrackAttempt ''10.0.0.0/24'', TrackAttempt ''10.0.0.0/24'']))
      ''10.0.0.0/24''
     = (fst (calls (NewTracker 0)
      [TrackAttempt ''10.0.0.0/24'', TrackAttempt ''10.0.0.0/24'', TrackAttempt ''10.0.0.0/24'',
       TrackAttempt ''10.0.0.0/24'', TrackAttempt ''10.0.0.0/24'', TrackAttempt ''10.0.0.0/24'']),
        [])"
proof -
  let ?g = "''10.0.0.0/24''"
  let ?six = "[TrackAttempt ?g, TrackAttempt ?g, TrackAttempt ?g, TrackAttempt ?g,
               TrackAttempt ?g, TrackAttempt ?g]"
  let ?line = "''sshd: Failed password for root from 10.0.0.7 port 22''"
  have b: "isBlocked (fst (calls (NewTracker 0) ?six)) ?g"
    by (simp add: tracker_defs)
  have l: "lastReset (fst (calls (NewTracker 0) ?six)) = 0"
    by (simp add: tracker_defs)
  have c: "cleanup (fst (calls (NewTracker 0) ?six)) 1000000000 = fst (calls (NewTracker 0) ?six)"
    unfolding cleanup_def l by (simp add: Sub_def Minute_def maxDuration_def minDuration_def)
  show ?thesis
    using blocked_subnet_is_suppressed[OF b, of 1 "\<lambda>ip. ''Unknown''" ?line "''10.0.0.7''" 1000000000]
      b c failed_line_ssh failed_line_ip subnet_of_example
    by simp
qed

section \<open>C3: the blocked set only grows\<close>

text \<open>
  C3. A subnet that is blocked in a tracker (any tracker, reachable or not) is blocked
  after every operation: after \<open>trackAttempt\<close> for any subnet, after \<open>cleanup\<close> at any
  time, after any call (\<open>isBlocked\<close> among them, which changes nothing), after any
  sequence of calls and after the main loop has processed any lines. \<open>cleanup\<close> never
  changes the blocked set, and when it resets the window every counter reads zero.
\<close>

theorem blocked_stays_blocked:
  assumes "isBlocked t s"
  shows "isBlocked (fst (trackAttempt t g)) s
       \<and> isBlocked (cleanup t now) s
       \<and> doCall t (IsBlocked g) = (t, [])
       \<and> isBlocked (fst (doCall t c)) s
       \<and> isBlocked (fst (calls t cs)) s
       \<and> isBlocked (fst (mainLoop geo t evs)) s
       \<and> blacklist (cleanup t now) = blacklist t
       \<and> (Minute \<le> now - lastReset t \<longrightarrow>
            attempts (cleanup t now) = Map.empty \<and> (\<forall>k. attemptsAt (cleanup t now) k = 0))"
proof -
  have "Minute \<le> now - lastReset t \<longrightarrow>
          attempts (cleanup t now) = Map.empty \<and> (\<forall>k. attemptsAt (cleanup t now) k = 0)"
    by (simp add: cleanup_def Sub_less_Minute attemptsAt_def)
  then show ?thesis
    using assms
    by (simp add: track_mono cleanup_blocked doCall_mono calls_mono mainLoop_mono
        cleanup_blacklist)
qed

text \<open>
  The subnet blocked by six attempts stays blocked through a window reset two minutes
  later, which clears its counter from 6 to 0.
\<close>

theorem blocked_stays_blocked_witness:
  "isBlocked (fst (calls (NewTracker 0)
      [TrackAttempt ''10.0.0.0/24'', TrackAttempt ''10.0.0.0/24'', TrackAttempt ''10.0.0.0/24'',
       TrackAttempt ''10.0.0.0/24'', TrackAttempt ''10.0.0.0/24'', TrackAttempt ''10.0.0.0/24'']))
     ''10.0.0.0/24''
   \<and> attemptsAt (fst (calls (NewTracker 0)
      [TrackAttempt ''10.0.0.0/24'', TrackAttempt ''10.0.0.0/24'', TrackAttempt ''10.0.0.0/24'',
       TrackAttempt ''10.0.0.0/24'', TrackAttempt ''10.0.0.0/24'', TrackAttempt ''10.0.0.0/24'']))
     ''10.0.0.0/24'' = 6
   \<and> isBlocked (cleanup (fst (calls (NewTracker 0)
      [TrackAttempt ''10.0.0.0/24'', TrackAttempt ''10.0.0.0/24'', TrackAttempt ''10.0.0.0/24'',
       TrackAttempt ''10.0.0.0/24'', TrackAttempt ''10.0.0.0/24'', TrackAttempt ''10.0.0.0/24'']))
       120000000000) ''10.0.0.0/24''
   \<and> attemptsAt (cleanup (fst (calls (NewTracker 0)
      [TrackAttempt ''10.0.0.0/24'', TrackAttempt ''10.0.0.0/24'', TrackAttempt ''10.0.0.0/24'',
       TrackAttempt ''10.0.0.0/24'', TrackAttempt ''10.0.0.0/24'', TrackAttempt ''10.0.0.0/24'']))
       120000000000) ''10.0.0.0/24'' = 0"
proof -
  let ?g = "''10.0.0.0/24''"
  let ?six = "[TrackAttempt ?g, TrackAttempt ?g, TrackAttempt ?g, TrackAttempt ?g,
               TrackAttempt ?g, TrackAttempt ?g]"
  have b: "isBlocked (fst (calls (NewTracker 0) ?six)) ?g"
    by (simp add: tracker_defs)
  have n: "attemptsAt (fst (calls (NewTracker 0) ?six)) ?g = 6"
    by (simp add: tracker_defs)
  have l: "Minute \<le> 120000000000 - lastReset (fst (calls (NewTracker 0) ?six))"
    by (simp add: tracker_defs)
  show ?thesis
    using blocked_stays_blocked[OF b, of ?g 120000000000 "IsBlocked ?g" "[]" "\<lambda>ip. ''Unknown''" "[]"]
      b n l
    by simp
qed

section \<open>C4: when \<open>cleanup\<close> resets the window\<close>

text \<open>
  C4, as the specification states it, fails where the elapsed time is exactly one minute: that
  does not exceed one minute, and \<open>cleanup\<close> resets. A tracker made at time 0 with one
  attempt counted, and \<open>cleanup\<close> at 60 seconds: the elapsed time is not more than a
  minute, yet the counter is cleared and \<open>lastReset\<close> moves.
\<close>

theorem cleanup_exactly_one_minute_counterexample:
  "\<not> Minute < Sub 60000000000 (lastReset (fst (trackAttempt (NewTracker 0) ''10.0.0.0/24'')))
   \<and> attemptsAt (fst (trackAttempt (NewTracker 0) ''10.0.0.0/24'')) ''10.0.0.0/24'' = 1
   \<and> attemptsAt (cleanup (fst (trackAttempt (NewTracker 0) ''10.0.0.0/24'')) 60000000000)
        ''10.0.0.0/24'' = 0
   \<and> lastReset (fst (trackAttempt (NewTracker 0) ''10.0.0.0/24'')) = 0
   \<and> lastReset (cleanup (fst (trackAttempt (NewTracker 0) ''10.0.0.0/24'')) 60000000000)
        = 60000000000
   \<and> cleanup (fst (trackAttempt (NewTracker 0) ''10.0.0.0/24'')) 60000000000
        \<noteq> fst (trackAttempt (NewTracker 0) ''10.0.0.0/24'')"
proof -
  let ?t = "fst (trackAttempt (NewTracker 0) ''10.0.0.0/24'')"
  have l0: "lastReset ?t = 0" by (simp add: tracker_defs)
  have l1: "lastReset (cleanup ?t 60000000000) = 60000000000" by (simp add: tracker_defs)
  have ne: "cleanup ?t 60000000000 \<noteq> ?t"
  proof
    assume "cleanup ?t 60000000000 = ?t"
    then have "lastReset (cleanup ?t 60000000000) = lastReset ?t" by simp
    then show False unfolding l0 l1 by simp
  qed
  have rest: "\<not> Minute < Sub 60000000000 (lastReset ?t)
      \<and> attemptsAt ?t ''10.0.0.0/24'' = 1
      \<and> attemptsAt (cleanup ?t 60000000000) ''10.0.0.0/24'' = 0"
    by (simp add: tracker_defs)
  show ?thesis using l0 l1 ne rest by simp
qed

text \<open>
  C4, amended. \<open>cleanup\<close> empties the attempts map and sets \<open>lastReset\<close> to the current
  time (\<open>now\<close>, not \<open>lastReset\<close> plus a step) exactly when the time elapsed since
  \<open>lastReset\<close> is at least one minute, leaving the blocked set as it was; when the
  elapsed time is less than one minute it leaves the whole tracker unchanged.
\<close>

theorem cleanup_resets_after_one_minute:
  "(Minute \<le> now - lastReset t \<longrightarrow>
      attempts (cleanup t now) = Map.empty \<and> lastReset (cleanup t now) = now
      \<and> blacklist (cleanup t now) = blacklist t)
   \<and> (now - lastReset t < Minute \<longrightarrow> cleanup t now = t)"
  by (simp add: cleanup_def Sub_less_Minute)

text \<open>One attempt counted at time 0: unchanged a nanosecond before the minute, reset at the minute.\<close>

theorem cleanup_resets_after_one_minute_witness:
  "59999999999 - lastReset (fst (trackAttempt (NewTracker 0) ''10.0.0.0/24'')) < Minute
   \<and> cleanup (fst (trackAttempt (NewTracker 0) ''10.0.0.0/24'')) 59999999999
       = fst (trackAttempt (NewTracker 0) ''10.0.0.0/24'')
   \<and> Minute \<le> 60000000000 - lastReset (fst (trackAttempt (NewTracker 0) ''10.0.0.0/24''))
   \<and> attempts (cleanup (fst (trackAttempt (NewTracker 0) ''10.0.0.0/24'')) 60000000000)
       = Map.empty
   \<and> lastReset (cleanup (fst (trackAttempt (NewTracker 0) ''10.0.0.0/24'')) 60000000000)
       = 60000000000"
proof -
  let ?t = "fst (trackAttempt (NewTracker 0) ''10.0.0.0/24'')"
  have l0: "lastReset ?t = 0" by (simp add: tracker_defs)
  show ?thesis
    using cleanup_resets_after_one_minute[of 59999999999 ?t]
      cleanup_resets_after_one_minute[of 60000000000 ?t]
    unfolding l0 by (simp add: Minute_def)
qed

section \<open>C5: an accepted login is not counted\<close>

text \<open>
  C5. For an event whose line contains \<open>Accepted\<close> and whose subnet is not blocked (an
  event the pipeline handles rather than suppresses), the decision of lines 243 to 278
  emits the successful-login alert (standard output, \<open>Event:\<close> log record, post to the
  webhook) and nothing else, and leaves the tracker as it was, whatever the subnet's
  counter is: \<open>trackAttempt\<close> is not called. Whether the subnet is blocked or not, the
  tracker after the decision is the tracker before it, so over the whole loop iteration
  the only change such a line can make is the window check of \<open>cleanup\<close>; and a line
  for which the decision changes a counter does not contain \<open>Accepted\<close>. For the loop
  body itself: when the line has the \<open>ssh\<close> marker, gives an address and the address's
  subnet is not blocked, the iteration emits the line's raw record followed by the
  successful-login alert for the extracted address, and nothing else, and its tracker
  is the one before the line after the window check of \<open>cleanup\<close>.
\<close>

theorem accepted_event_is_not_counted:
  assumes "Contains line ''Accepted''"
  shows "(\<not> isBlocked t subnet \<longrightarrow>
            handleEvent geo t line ip subnet =
              (t, [Stdout (Successful ip (getGeoIP geo ip) (extractUsername line)),
                   LogEvent (Successful ip (getGeoIP geo ip) (extractUsername line)),
                   Post (Successful ip (getGeoIP geo ip) (extractUsername line))]))
       \<and> fst (handleEvent geo t line ip subnet) = t
       \<and> fst (processLine geo t (line, now)) =
            (if Contains (ToLower line) ''ssh'' \<and> extractIP line \<noteq> [] then cleanup t now else t)
       \<and> (attempts (fst (handleEvent geo t other ip subnet)) \<noteq> attempts t \<longrightarrow>
            \<not> Contains other ''Accepted'')
       \<and> (Contains (ToLower line) ''ssh'' \<and> extractIP line \<noteq> []
            \<and> \<not> isBlocked t (getSubnet (extractIP line)) \<longrightarrow>
          processLine geo t (line, now) =
            (cleanup t now,
             [LogRaw line,
              Stdout (Successful (extractIP line) (getGeoIP geo (extractIP line))
                        (extractUsername line)),
              LogEvent (Successful (extractIP line) (getGeoIP geo (extractIP line))
                        (extractUsername line)),
              Post (Successful (extractIP line) (getGeoIP geo (extractIP line))
                        (extractUsername line))]))"
proof -
  have unchanged: "fst (handleEvent geo t l i s) = t" if "Contains l ''Accepted''" for l i s
    using that by (cases "isBlocked t s") (simp_all add: handleEvent_blocked handleEvent_accepted)
  have "fst (processLine geo t (line, now)) =
          (if Contains (ToLower line) ''ssh'' \<and> extractIP line \<noteq> [] then cleanup t now else t)"
  proof (cases "Contains (ToLower line) ''ssh'' \<and> extractIP line \<noteq> []")
    case True
    then show ?thesis using unchanged[OF assms] by (simp add: processLine_handled)
  next
    case False
    have "processLine geo t (line, now) = (t, [LogRaw line])"
      using False by (rule processLine_skip)
    then show ?thesis using False by auto
  qed
  moreover have "attempts (fst (handleEvent geo t other ip subnet)) \<noteq> attempts t \<longrightarrow>
                   \<not> Contains other ''Accepted''"
    using unchanged[of other ip subnet] by auto
  moreover have "Contains (ToLower line) ''ssh'' \<and> extractIP line \<noteq> []
            \<and> \<not> isBlocked t (getSubnet (extractIP line)) \<longrightarrow>
          processLine geo t (line, now) =
            (cleanup t now,
             [LogRaw line,
              Stdout (Successful (extractIP line) (getGeoIP geo (extractIP line))
                        (extractUsername line)),
              LogEvent (Successful (extractIP line) (getGeoIP geo (extractIP line))
                        (extractUsername line)),
              Post (Successful (extractIP line) (getGeoIP geo (extractIP line))
                        (extractUsername line))])"
    using assms by (simp add: processLine_handled handleEvent_accepted)
  ultimately show ?thesis
    using assms unchanged[OF assms, of ip subnet] by (simp add: handleEvent_accepted)
qed

text \<open>
  Five failed attempts from the subnet (its counter at the threshold), then an accepted
  login from \<open>10.0.0.7\<close> one second after the tracker was made: the loop body emits
  the raw record and the success alert, and the counter is still at 5.
\<close>

theorem accepted_event_is_not_counted_witness:
  "Contains ''sshd: Accepted password for root from 10.0.0.7 port 22'' ''Accepted''
   \<and> attemptsAt (fst (calls (NewTracker 0)
      [TrackAttempt ''10.0.0.0/24'', TrackAttempt ''10.0.0.0/24'', TrackAttempt ''10.0.0.0/24'',
       TrackAttempt ''10.0.0.0/24'', TrackAttempt ''10.0.0.0/24''])) ''10.0.0.0/24'' = 5
   \<and> \<not> isBlocked (fst (calls (NewTracker 0)
      [TrackAttempt ''10.0.0.0/24'', TrackAttempt ''10.0.0.0/24'', TrackAttempt ''10.0.0.0/24'',
       TrackAttempt ''10.0.0.0/24'', TrackAttempt ''10.0.0.0/24''])) ''10.0.0.0/24''
   \<and> handleEvent (\<lambda>ip. ''Unknown'') (fst (calls (NewTracker 0)
      [TrackAttempt ''10.0.0.0/24'', TrackAttempt ''10.0.0.0/24'', TrackAttempt ''10.0.0.0/24'',
       TrackAttempt ''10.0.0.0/24'', TrackAttempt ''10.0.0.0/24'']))
      ''sshd: Accepted password for root from 10.0.0.7 port 22'' ''10.0.0.7'' ''10.0.0.0/24''
     = (fst (calls (NewTracker 0)
      [TrackAttempt ''10.0.0.0/24'', TrackAttempt ''10.0.0.0/24'', TrackAttempt ''10.0.0.0/24'',
       TrackAttempt ''10.0.0.0/24'', TrackAttempt ''10.0.0.0/24'']),
        [Stdout (Successful ''10.0.0.7'' ''Unknown'' ''root''),
         LogEvent (Successful ''10.0.0.7'' ''Unknown'' ''root''),
         Post (Successful ''10.0.0.7'' ''Unknown'' ''root'')])
   \<and> fst (processLine (\<lambda>ip. ''Unknown'') (fst (calls (NewTracker 0)
      [TrackAttempt ''10.0.0.0/24'', TrackAttempt ''10.0.0.0/24'', TrackAttempt ''10.0.0.0/24'',
       TrackAttempt ''10.0.0.0/24'', TrackAttempt ''10.0.0.0/24'']))
      (''sshd: Accepted password for root from 10.0.0.7 port 22'', 1000000000))
     = fst (calls (NewTracker 0)
      [TrackAttempt ''10.0.0.0/24'', TrackAttempt ''10.0.0.0/24'', TrackAttempt ''10.0.0.0/24'',
       TrackAttempt ''10.0.0.0/24'', TrackAttempt ''10.0.0.0/24''])
   \<and> Contains (ToLower ''sshd: Accepted password for root from 10.0.0.7 port 22'') ''ssh''
   \<and> extractIP ''sshd: Accepted password for root from 10.0.0.7 port 22'' = ''10.0.0.7''
   \<and> getSubnet ''10.0.0.7'' = ''10.0.0.0/24''
   \<and> processLine (\<lambda>ip. ''Unknown'') (fst (calls (NewTracker 0)
      [TrackAttempt ''10.0.0.0/24'', TrackAttempt ''10.0.0.0/24'', TrackAttempt ''10.0.0.0/24'',
       TrackAttempt ''10.0.0.0/24'', TrackAttempt ''10.0.0.0/24'']))
      (''sshd: Accepted password for root from 10.0.0.7 port 22'', 1000000000)
     = (fst (calls (NewTracker 0)
      [TrackAttempt ''10.0.0.0/24'', TrackAttempt ''10.0.0.0/24'', TrackAttempt ''10.0.0.0/24'',
       TrackAttempt ''10.0.0.0/24'', TrackAttempt ''10.0.0.0/24'']),
        [LogRaw ''sshd: Accepted password for root from 10.0.0.7 port 22'',
         Stdout (Successful ''10.0.0.7'' ''Unknown'' ''root''),
         LogEvent (Successful ''10.0.0.7'' ''Unknown'' ''root''),
         Post (Successful ''10.0.0.7'' ''Unknown'' ''root'')])
   \<and> attemptsAt (fst (processLine (\<lambda>ip. ''Unknown'') (fst (calls (NewTracker 0)
      [TrackAttempt ''10.0.0.0/24'', TrackAttempt ''10.0.0.0/24'', TrackAttempt ''10.0.0.0/24'',
       TrackAttempt ''10.0.0.0/24'', TrackAttempt ''10.0.0.0/24'']))
      (''sshd: Accepted password for root from 10.0.0.7 port 22'', 1000000000)))
      ''10.0.0.0/24'' = 5"
proof -
  let ?g = "''10.0.0.0/24''"
  let ?five = "[TrackAttempt ?g, TrackAttempt ?g, TrackAttempt ?g, TrackAttempt ?g,
                TrackAttempt ?g]"
  let ?line = "''sshd: Accepted password for root from 10.0.0.7 port 22''"
  have a: "Contains ?line ''Accepted''" by simp
  have c5: "attemptsAt (fst (calls (NewTracker 0) ?five)) ?g = 5
            \<and> \<not> isBlocked (fst (calls (NewTracker 0) ?five)) ?g"
    by (simp add: tracker_defs)
  have l: "lastReset (fst (calls (NewTracker 0) ?five)) = 0"
    by (simp add: tracker_defs)
  have c: "cleanup (fst (calls (NewTracker 0) ?five)) 1000000000
           = fst (calls (NewTracker 0) ?five)"
    unfolding cleanup_def l by (simp add: Sub_def Minute_def maxDuration_def minDuration_def)
  show ?thesis
    using accepted_event_is_not_counted[OF a, of "fst (calls (NewTracker 0) ?five)" ?g
        "\<lambda>ip. ''Unknown''" "''10.0.0.7''" 1000000000 ?line]
      a c5 c accepted_line_ssh accepted_line_ip accepted_line_user subnet_of_example
    by (simp add: getGeoIP_def)
qed

section \<open>C6: which lines reach \<open>cleanup\<close>\<close>

text \<open>
  C6, as the specification states it, fails: a line without the \<open>ssh\<close> marker and a line with
  no address leave the loop body through \<open>continue\<close> before the call of \<open>cleanup\<close>.
  A tracker made at time 0 with one attempt counted, and such a line two minutes later:
  the counter and \<open>lastReset\<close> are as before, where \<open>cleanup\<close> would have cleared the
  counter and moved \<open>lastReset\<close> to the two minutes.
\<close>

theorem cleanup_skipped_counterexample:
  "processLine (\<lambda>ip. ''Unknown'') (fst (trackAttempt (NewTracker 0) ''10.0.0.0/24''))
      (''cron: job started'', 120000000000)
     = (fst (trackAttempt (NewTracker 0) ''10.0.0.0/24''), [LogRaw ''cron: job started''])
   \<and> processLine (\<lambda>ip. ''Unknown'') (fst (trackAttempt (NewTracker 0) ''10.0.0.0/24''))
      (''sshd: bye'', 120000000000)
     = (fst (trackAttempt (NewTracker 0) ''10.0.0.0/24''), [LogRaw ''sshd: bye''])
   \<and> attemptsAt (fst (trackAttempt (NewTracker 0) ''10.0.0.0/24'')) ''10.0.0.0/24'' = 1
   \<and> lastReset (fst (trackAttempt (NewTracker 0) ''10.0.0.0/24'')) = 0
   \<and> attemptsAt (cleanup (fst (trackAttempt (NewTracker 0) ''10.0.0.0/24'')) 120000000000)
        ''10.0.0.0/24'' = 0
   \<and> lastReset (cleanup (fst (trackAttempt (NewTracker 0) ''10.0.0.0/24'')) 120000000000)
        = 120000000000"
proof -
  have no_marker: "\<not> Contains (ToLower ''cron: job started'') ''ssh''"
    by (simp add: ToLower_def toLowerByte_def)
  have p1: "processLine (\<lambda>ip. ''Unknown'') (fst (trackAttempt (NewTracker 0) ''10.0.0.0/24''))
      (''cron: job started'', 120000000000)
     = (fst (trackAttempt (NewTracker 0) ''10.0.0.0/24''), [LogRaw ''cron: job started''])"
    using no_marker by (simp add: processLine_skip)
  have p2: "processLine (\<lambda>ip. ''Unknown'') (fst (trackAttempt (NewTracker 0) ''10.0.0.0/24''))
      (''sshd: bye'', 120000000000)
     = (fst (trackAttempt (NewTracker 0) ''10.0.0.0/24''), [LogRaw ''sshd: bye''])"
    using no_address_line by (simp add: processLine_skip)
  show ?thesis
    using p1 p2 by (simp add: tracker_defs)
qed

text \<open>
  C6, amended. The loop body calls \<open>cleanup\<close>, as its last step, for exactly the lines
  that contain the \<open>ssh\<close> marker (in any case) and from which an address is extracted,
  whether their subnet is blocked or not; every other line leaves the tracker as it
  was. So the window clock does not advance during a burst of such lines: the main loop
  returns the tracker unchanged from any sequence of them, with their raw records as
  its only effects.
\<close>

theorem cleanup_only_for_handled_lines:
  "fst (processLine geo t (line, now)) =
     (if Contains (ToLower line) ''ssh'' \<and> extractIP line \<noteq> []
      then cleanup (fst (handleEvent geo t line (extractIP line) (getSubnet (extractIP line)))) now
      else t)
   \<and> ((\<forall>ev \<in> set evs. \<not> (Contains (ToLower (fst ev)) ''ssh'' \<and> extractIP (fst ev) \<noteq> [])) \<longrightarrow>
        mainLoop geo t evs = (t, map (\<lambda>ev. LogRaw (fst ev)) evs))"
proof -
  have "fst (processLine geo t (line, now)) =
     (if Contains (ToLower line) ''ssh'' \<and> extractIP line \<noteq> []
      then cleanup (fst (handleEvent geo t line (extractIP line) (getSubnet (extractIP line)))) now
      else t)"
  proof (cases "Contains (ToLower line) ''ssh'' \<and> extractIP line \<noteq> []")
    case True
    then show ?thesis by (simp add: processLine_handled)
  next
    case False
    have "processLine geo t (line, now) = (t, [LogRaw line])"
      using False by (rule processLine_skip)
    then show ?thesis using False by auto
  qed
  then show ?thesis
    using mainLoop_irrelevant[of evs geo t] by blast
qed

text \<open>
  One attempt counted at time 0. Two minutes later a failed login from that
  subnet reaches \<open>cleanup\<close>, which moves \<open>lastReset\<close>; a burst of two skipped lines at
  that time does not.
\<close>

theorem cleanup_only_for_handled_lines_witness:
  "lastReset (fst (processLine (\<lambda>ip. ''Unknown'')
      (fst (trackAttempt (NewTracker 0) ''10.0.0.0/24''))
      (''sshd: Failed password for root from 10.0.0.7 port 22'', 120000000000)))
     = 120000000000
   \<and> mainLoop (\<lambda>ip. ''Unknown'') (fst (trackAttempt (NewTracker 0) ''10.0.0.0/24''))
      [(''cron: job started'', 120000000000), (''sshd: bye'', 120000000001)]
     = (fst (trackAttempt (NewTracker 0) ''10.0.0.0/24''),
        [LogRaw ''cron: job started'', LogRaw ''sshd: bye''])"
proof -
  let ?t = "fst (trackAttempt (NewTracker 0) ''10.0.0.0/24'')"
  let ?line = "''sshd: Failed password for root from 10.0.0.7 port 22''"
  have no_marker: "\<not> Contains (ToLower ''cron: job started'') ''ssh''"
    by (simp add: ToLower_def toLowerByte_def)
  have l: "lastReset (cleanup (fst (handleEvent (\<lambda>ip. ''Unknown'') ?t ?line ''10.0.0.7''
              ''10.0.0.0/24'')) 120000000000) = 120000000000"
    by (simp add: handleEvent_def tracker_defs split_beta)
  show ?thesis
    using cleanup_only_for_handled_lines[of "\<lambda>ip. ''Unknown''" ?t ?line 120000000000
        "[(''cron: job started'', 120000000000), (''sshd: bye'', 120000000001)]"]
      l no_marker no_address_line failed_line_ssh failed_line_ip subnet_of_example
    by simp
qed

section \<open>C7: which field accesses are made under the lock\<close>

text \<open>
  C7. \<open>isBlocked\<close> and \<open>trackAttempt\<close> take the lock first and release it last: all
  their field accesses lie in one critical section, in \<open>trackAttempt\<close> the test of the
  blocked set, the increment, the test of the threshold and the blocking together.
  \<open>cleanup\<close> does not: on every call, whatever the tracker and the time, its first
  action is the read of \<open>lastReset\<close> on line 142, made without the lock, which it takes
  only afterwards and only when it resets. So the statement that every access of the three
  operations is made while holding the lock fails on \<open>cleanup\<close>.
\<close>

theorem cleanup_reads_lastReset_without_lock:
  "guarded False (actions (snd (run_state (isBlockedM subnet) (start t))))
   \<and> criticalSection (actions (snd (run_state (isBlockedM subnet) (start t))))
   \<and> guarded False (actions (snd (run_state (trackAttemptM subnet) (start t))))
   \<and> criticalSection (actions (snd (run_state (trackAttemptM subnet) (start t))))
   \<and> \<not> guarded False (actions (snd (run_state (cleanupM now) (start t))))
   \<and> take 1 (actions (snd (run_state (cleanupM now) (start t)))) = [Read LastReset]
   \<and> tracker (snd (run_state (cleanupM now) (start t))) = cleanup t now
   \<and> tracker (snd (run_state (trackAttemptM subnet) (start t))) = fst (trackAttempt t subnet)
   \<and> fst (run_state (isBlockedM subnet) (start t)) = isBlocked t subnet"
  by (simp add: isBlockedM_run trackAttemptM_actions trackAttemptM_result cleanupM_actions
      cleanupM_result criticalSection_def)

section \<open>C8: the grouping function\<close>

text \<open>
  C8. \<open>getSubnet\<close> is a function of the address alone. For an address that splits at its
  dots into exactly four components it returns the first three joined by dots, followed
  by \<open>.0/24\<close>; so two addresses with the same first three components get the same
  group. For an address that does not split into exactly four components (that is,
  one that does not have exactly three dots) it returns the address as it is.
\<close>

theorem getSubnet_groups_by_first_three:
  "(Split ip (CHR ''.'') = [a, b, c, d] \<longrightarrow>
      getSubnet ip = a @ ''.'' @ b @ ''.'' @ c @ ''.0/24'')
   \<and> (Split ip (CHR ''.'') = [a, b, c, d] \<and> Split ip' (CHR ''.'') = [a, b, c, d'] \<longrightarrow>
      getSubnet ip = getSubnet ip')
   \<and> (length (Split ip (CHR ''.'')) \<noteq> 4 \<longrightarrow> getSubnet ip = ip)
   \<and> (length (Split ip (CHR ''.'')) = 4 \<longleftrightarrow> count_list ip (CHR ''.'') = 3)
   \<and> Join (Split ip (CHR ''.'')) ''.'' = ip"
proof -
  have "length (Split ip (CHR ''.'')) \<noteq> 4 \<longrightarrow> getSubnet ip = ip"
    by (simp add: getSubnet_def)
  moreover have "length (Split ip (CHR ''.'')) = 4 \<longleftrightarrow> count_list ip (CHR ''.'') = 3"
    by (simp add: length_Split)
  ultimately show ?thesis
    by (simp add: getSubnet_four Join_Split)
qed

theorem getSubnet_groups_by_first_three_witness:
  "Split ''10.0.0.1'' (CHR ''.'') = [''10'', ''0'', ''0'', ''1'']
   \<and> Split ''10.0.0.77'' (CHR ''.'') = [''10'', ''0'', ''0'', ''77'']
   \<and> getSubnet ''10.0.0.1'' = ''10.0.0.0/24''
   \<and> getSubnet ''10.0.0.1'' = getSubnet ''10.0.0.77''
   \<and> length (Split ''10.0.0.1.5'' (CHR ''.'')) \<noteq> 4
   \<and> getSubnet ''10.0.0.1.5'' = ''10.0.0.1.5''
   \<and> length (Split ''localhost'' (CHR ''.'')) \<noteq> 4
   \<and> getSubnet ''localhost'' = ''localhost''"
  using getSubnet_groups_by_first_three[of "''10.0.0.1''" "''10''" "''0''" "''0''" "''1''"
      "''10.0.0.77''" "''77''"]
    getSubnet_groups_by_first_three[of "''10.0.0.1.5''"]
    getSubnet_groups_by_first_three[of "''localhost''"]
  by auto

section \<open>C9: only the exact text \<open>Accepted\<close> marks a success\<close>

text \<open>
  C9. Both tests of the loop body are \<open>strings.Contains(line, "Accepted")\<close>, on the line
  as it is. So for a line without \<open>Accepted\<close> (one that has \<open>accepted\<close> in lower case
  only, for one) that passes the \<open>ssh\<close> test, which is made on the lower-cased line, and
  gives an address whose subnet is not blocked, the loop body emits the SSH-activity
  alert, not the successful-login one, and calls \<open>trackAttempt\<close>, which adds one to the
  subnet's counter.
\<close>

theorem lowercase_accepted_is_counted:
  assumes "\<not> Contains line ''Accepted''"
    and "Contains (ToLower line) ''ssh''"
    and "extractIP line \<noteq> []"
    and "\<not> isBlocked t (getSubnet (extractIP line))"
  shows "processLine geo t (line, now) =
           (cleanup (fst (trackAttempt t (getSubnet (extractIP line)))) now,
            [LogRaw line,
             Stdout (Activity (extractIP line) (getGeoIP geo (extractIP line))
                       (getSubnet (extractIP line))),
             LogEvent (Activity (extractIP line) (getGeoIP geo (extractIP line))
                       (getSubnet (extractIP line))),
             Post (Activity (extractIP line) (getGeoIP geo (extractIP line))
                       (getSubnet (extractIP line)))]
            @ snd (trackAttempt t (getSubnet (extractIP line))))
       \<and> attemptsAt (fst (trackAttempt t (getSubnet (extractIP line))))
            (getSubnet (extractIP line))
          = attemptsAt t (getSubnet (extractIP line)) + 1"
  using assms by (simp add: processLine_handled handleEvent_other track_count)

text \<open>
  A new tracker and the line \<open>SSHD: accepted password for root from 10.0.0.7 port 22\<close>:
  the upper-case \<open>SSHD\<close> passes the marker test, the lower-case \<open>accepted\<close> does not make
  it a success, and the subnet's counter goes from 0 to 1.
\<close>

theorem lowercase_accepted_is_counted_witness:
  "Contains ''SSHD: accepted password for root from 10.0.0.7 port 22'' ''accepted''
   \<and> \<not> Contains ''SSHD: accepted password for root from 10.0.0.7 port 22'' ''Accepted''
   \<and> \<not> Contains ''SSHD: accepted password for root from 10.0.0.7 port 22'' ''ssh''
   \<and> Contains (ToLower ''SSHD: accepted password for root from 10.0.0.7 port 22'') ''ssh''
   \<and> snd (processLine (\<lambda>ip. ''Unknown'') (NewTracker 0)
        (''SSHD: accepted password for root from 10.0.0.7 port 22'', 1000000000))
      = [LogRaw ''SSHD: accepted password for root from 10.0.0.7 port 22'',
         Stdout (Activity ''10.0.0.7'' ''Unknown'' ''10.0.0.0/24''),
         LogEvent (Activity ''10.0.0.7'' ''Unknown'' ''10.0.0.0/24''),
         Post (Activity ''10.0.0.7'' ''Unknown'' ''10.0.0.0/24'')]
   \<and> attemptsAt (NewTracker 0) ''10.0.0.0/24'' = 0
   \<and> attemptsAt (fst (processLine (\<lambda>ip. ''Unknown'') (NewTracker 0)
        (''SSHD: accepted password for root from 10.0.0.7 port 22'', 1000000000)))
        ''10.0.0.0/24'' = 1"
proof -
  let ?line = "''SSHD: accepted password for root from 10.0.0.7 port 22''"
  have a: "\<not> Contains ?line ''Accepted''" by simp
  have e: "extractIP ?line \<noteq> []" by (simp add: lower_line_ip)
  have b: "\<not> isBlocked (NewTracker 0) (getSubnet (extractIP ?line))"
    by (simp add: tracker_defs)
  have more: "Contains ?line ''accepted'' \<and> \<not> Contains ?line ''ssh''" by simp
  show ?thesis
    using lowercase_accepted_is_counted[OF a lower_line_ssh e b, of "\<lambda>ip. ''Unknown''" 1000000000]
      a more lower_line_ssh
    by (simp add: lower_line_ip subnet_of_example getGeoIP_def tracker_defs)
qed

section \<open>C10: the grouping function does not validate the components\<close>

text \<open>
  C10. Whatever four strings without a dot are joined by dots (digits or not, empty or
  not, in the range of an octet or not), \<open>getSubnet\<close> of the result is the first three
  joined by dots, followed by \<open>.0/24\<close>: the address is never returned unchanged as
  malformed on account of what its components hold.
\<close>

theorem getSubnet_does_not_validate:
  assumes "length parts = 4" and "\<forall>p \<in> set parts. CHR ''.'' \<notin> set p"
  shows "getSubnet (Join parts ''.'') = Join (take 3 parts) ''.'' @ ''.0/24''"
proof -
  from assms(1) have "parts \<noteq> []" by auto
  then have "Split (Join parts ''.'') (CHR ''.'') = parts"
    using assms(2) by (rule Split_Join)
  then show ?thesis using assms(1) by (simp add: getSubnet_def)
qed

theorem getSubnet_does_not_validate_witness:
  "getSubnet ''a.b.c.d'' = ''a.b.c.0/24''
   \<and> getSubnet ''999.1.2.3'' = ''999.1.2.0/24''
   \<and> getSubnet ''...'' = ''...0/24''"
  using getSubnet_does_not_validate[of "[''a'', ''b'', ''c'', ''d'']"]
    getSubnet_does_not_validate[of "[''999'', ''1'', ''2'', ''3'']"]
    getSubnet_does_not_validate[of "[[], [], [], []]"]
  by simp

end
